theory Spec2Isabelle
  imports Main
begin

section \<open>Exceptions, paths and the file system\<close>

text \<open>
  The program is a Streamlit script (\<^verbatim>\<open>app.py\<close>) over three functions of
  \<^verbatim>\<open>populate_database.py\<close>. Everything it does to the outside world goes through
  calls of the Python runtime (\<^verbatim>\<open>os\<close>, \<^verbatim>\<open>shutil\<close>, \<^verbatim>\<open>open\<close>) and of libraries.
  Each such call can raise; which calls raise in a given run is not decided by the program,
  so it is a parameter of the model (the record \<open>world\<close> below), and every
  \<^verbatim>\<open>try\<close>/\<^verbatim>\<open>except\<close> of the source is a case distinction over it.

  Exceptions: the source distinguishes \<^verbatim>\<open>PermissionError\<close> from every other subclass
  of \<^verbatim>\<open>Exception\<close>. Both carry the text that \<^verbatim>\<open>str(e)\<close> returns.
\<close>

datatype exn = PermissionError string | Exception string

fun str :: "exn \<Rightarrow> string" where
  "str (PermissionError m) = m"
| "str (Exception m) = m"

text \<open>
  The file system maps a path to what is stored there: a regular file with its content,
  or a directory. The working directory is fixed, so relative paths name files directly.
\<close>

datatype node = File string | Dir

type_synonym filesystem = "string \<Rightarrow> node option"

definition os_path_exists :: "filesystem \<Rightarrow> string \<Rightarrow> bool" where
  "os_path_exists fs p = (fs p \<noteq> None)"

text \<open>\<^verbatim>\<open>os.path.dirname\<close> and \<^verbatim>\<open>os.path.join\<close> (two arguments), as \<^verbatim>\<open>posixpath\<close> defines them.\<close>

definition os_path_dirname :: "string \<Rightarrow> string" where
  "os_path_dirname p =
     (let head = rev (dropWhile (\<lambda>c. c \<noteq> CHR ''/'') (rev p))
      in if head \<noteq> [] \<and> head \<noteq> replicate (length head) (CHR ''/'')
         then rev (dropWhile (\<lambda>c. c = CHR ''/'') (rev head))
         else head)"

definition os_path_join :: "string \<Rightarrow> string \<Rightarrow> string" where
  "os_path_join a b =
     (if b \<noteq> [] \<and> hd b = CHR ''/'' then b
      else if a = [] \<or> last a = CHR ''/'' then a @ b
      else a @ ''/'' @ b)"

definition CHROMA_PATH :: string where
  "CHROMA_PATH = ''chroma''"

definition marker_file :: string where
  "marker_file = os_path_join (os_path_dirname CHROMA_PATH) ''delete_chroma.marker''"

text \<open>\<open>under p q\<close>: the path \<open>q\<close> lies inside the directory \<open>p\<close>.\<close>

definition under :: "string \<Rightarrow> string \<Rightarrow> bool" where
  "under p q = (take (Suc (length p)) q = p @ ''/'')"

section \<open>Documents and fetched pages\<close>

text \<open>
  A \<^verbatim>\<open>Document\<close> has a text and a metadata dictionary; the program only ever stores the
  key \<^verbatim>\<open>"source"\<close> there.
\<close>

datatype document = Document (page_content: string) (metadata: "(string \<times> string) list")

text \<open>
  What \<^verbatim>\<open>fetch_content\<close> reads of an element found by \<^verbatim>\<open>find_all\<close>: its name, its
  \<^verbatim>\<open>get_text(strip=True)\<close>, and the \<^verbatim>\<open>get_text(strip=True)\<close> of each \<^verbatim>\<open>li\<close> inside it.
\<close>

datatype tag = Tag (name: string) (get_text: string) (li: "string list")

text \<open>
  A parsed page, after the unwanted elements are decomposed. For each candidate region
  (\<^verbatim>\<open>soup.find('article')\<close>, \<^verbatim>\<open>soup.find('main')\<close>, \<^verbatim>\<open>soup.body\<close>): \<open>None\<close> when the page
  has no such element, otherwise what
  \<^verbatim>\<open>find_all(['h1', 'h2', 'h3', 'h4', 'h5', 'h6', 'p', 'ul', 'ol', 'blockquote'])\<close> returns on
  it, in document order.
\<close>

datatype page = Page (article: "tag list option") (main: "tag list option") (body: "tag list option")

text \<open>
  Lines 21 to 29 for one URL: \<open>Raises e\<close> when \<^verbatim>\<open>requests.get\<close>, \<^verbatim>\<open>raise_for_status\<close>
  or the parser raises \<open>e\<close> (a network failure, a timeout, an error status), \<open>Parsed p\<close>
  otherwise.
\<close>

datatype fetched = Raises exn | Parsed page

text \<open>
  What the outside world does in one run of the script. \<open>None\<close> means the call returns
  normally, \<open>Some e\<close> that it raises \<open>e\<close>.
  \<^item> \<open>open_raises\<close>, \<open>write_raises\<close>: \<^verbatim>\<open>open(marker_file, 'w')\<close> and \<^verbatim>\<open>f.write\<close> in
    \<^verbatim>\<open>clear_database\<close>;
  \<^item> \<open>rmtree_raises\<close>: \<^verbatim>\<open>shutil.rmtree(CHROMA_PATH)\<close>; when it raises, the entries listed
    in \<open>rmtree_removed\<close> that lie inside the directory are already gone (the directory
    itself is removed last, so it is still there);
  \<^item> \<open>remove_raises\<close>: \<^verbatim>\<open>os.remove(marker_file)\<close> in the \<^verbatim>\<open>try\<close> block of
    \<^verbatim>\<open>check_deletion_marker\<close>; \<open>remove_again_raises\<close>: the one in its handler;
  \<^item> \<open>http i url\<close>: what the \<open>i\<close>-th request of \<^verbatim>\<open>fetch_content\<close>, for \<open>url\<close>, comes
    back with (see \<open>fetched\<close>);
  \<^item> \<open>text_splitter size overlap\<close>: the method \<^verbatim>\<open>split_documents\<close> of the library's
    \<^verbatim>\<open>RecursiveCharacterTextSplitter\<close> built with \<^verbatim>\<open>chunk_size = size\<close>,
    \<^verbatim>\<open>chunk_overlap = overlap\<close>, \<^verbatim>\<open>length_function = len\<close>, \<^verbatim>\<open>is_separator_regex = False\<close>.
    Its code is not part of this program; nothing is assumed about it;
  \<^item> \<open>chroma_raises\<close>: building the embedding function and opening the store
    (\<^verbatim>\<open>Chroma(persist_directory = CHROMA_PATH, ...)\<close>); \<open>add_documents_raises\<close>:
    \<^verbatim>\<open>db.add_documents(chunks)\<close>.
\<close>

record world =
  open_raises :: "exn option"
  write_raises :: "exn option"
  rmtree_raises :: "exn option"
  rmtree_removed :: "string list"
  remove_raises :: "exn option"
  remove_again_raises :: "exn option"
  http :: "nat \<Rightarrow> string \<Rightarrow> fetched"
  text_splitter :: "nat \<Rightarrow> nat \<Rightarrow> document list \<Rightarrow> document list"
  chroma_raises :: "exn option"
  add_documents_raises :: "exn option"

text \<open>
  \<^verbatim>\<open>os.remove(p)\<close>: removes a regular file; raises on a missing path and on a directory.
  The result is the exception raised, if any, and the file system afterwards.
\<close>

definition os_remove :: "exn option \<Rightarrow> filesystem \<Rightarrow> string \<Rightarrow> exn option \<times> filesystem" where
  "os_remove raises fs p =
     (case fs p of
        None \<Rightarrow> (Some (Exception ''No such file or directory''), fs)
      | Some Dir \<Rightarrow> (Some (Exception ''Is a directory''), fs)
      | Some (File c) \<Rightarrow>
          (case raises of
             None \<Rightarrow> (None, fs(p := None))
           | Some e \<Rightarrow> (Some e, fs)))"

text \<open>
  \<^verbatim>\<open>shutil.rmtree(p)\<close>: removes the directory \<open>p\<close> and everything inside it; raises on a
  missing path and on a regular file.
\<close>

definition shutil_rmtree :: "world \<Rightarrow> filesystem \<Rightarrow> string \<Rightarrow> exn option \<times> filesystem" where
  "shutil_rmtree w fs p =
     (case fs p of
        None \<Rightarrow> (Some (Exception ''No such file or directory''), fs)
      | Some (File c) \<Rightarrow> (Some (Exception ''Not a directory''), fs)
      | Some Dir \<Rightarrow>
          (case rmtree_raises w of
             None \<Rightarrow> (None, (\<lambda>q. if q = p \<or> under p q then None else fs q))
           | Some e \<Rightarrow>
               (Some e, (\<lambda>q. if q \<in> set (rmtree_removed w) \<and> under p q then None else fs q))))"

text \<open>
  \<^verbatim>\<open>with open(p, 'w') as f: f.write(text)\<close>: opening creates or truncates the file, the
  write fills it. Opening a directory raises.
\<close>

definition write_file :: "world \<Rightarrow> filesystem \<Rightarrow> string \<Rightarrow> string \<Rightarrow> exn option \<times> filesystem" where
  "write_file w fs p text =
     (case fs p of
        Some Dir \<Rightarrow> (Some (Exception ''Is a directory''), fs)
      | _ \<Rightarrow>
          (case open_raises w of
             Some e \<Rightarrow> (Some e, fs)
           | None \<Rightarrow>
               (case write_raises w of
                  Some e \<Rightarrow> (Some e, fs(p \<mapsto> File []))
                | None \<Rightarrow> (None, fs(p \<mapsto> File text)))))"

section \<open>The user interface\<close>

text \<open>
  The calls \<^verbatim>\<open>st.success\<close>, \<^verbatim>\<open>st.error\<close>, \<^verbatim>\<open>st.warning\<close> and \<^verbatim>\<open>st.info\<close> show a message;
  the model appends it to the list of messages shown in this run.
\<close>

datatype ui_event = St_success string | St_error string | St_warning string | St_info string

section \<open>Deferred deletion: \<^verbatim>\<open>clear_database\<close> and \<^verbatim>\<open>check_deletion_marker\<close>\<close>

text \<open>\<^verbatim>\<open>clear_database\<close> (populate\_database.py, lines 90 to 107).\<close>

definition clear_database :: "world \<Rightarrow> filesystem \<times> ui_event list \<Rightarrow> filesystem \<times> ui_event list" where
  "clear_database w st =
     (case st of (fs, ui) \<Rightarrow>
        (case write_file w fs marker_file ''delete'' of
           (None, fs') \<Rightarrow>
             (fs', ui @
               [St_success ''Database marked for deletion'',
                St_warning ''To complete database clearing, please:'',
                St_info (''1. Close this browser tab'' @ [CHR 0x0A] @
                         ''2. Stop the Streamlit server with Ctrl+C in your terminal'' @ [CHR 0x0A] @
                         ''3. Run '' @ [CHR 0x27] @ ''streamlit run app.py'' @ [CHR 0x27] @ '' again'')])
         | (Some e, fs') \<Rightarrow>
             (fs', ui @ [St_error (''Error marking database for deletion: '' @ str e)])))"

text \<open>The three messages of \<^verbatim>\<open>check_deletion_marker\<close>, as the pairs the source builds.\<close>

definition msg_locked :: "string \<times> string" where
  "msg_locked =
     (''error'', ''Database files are still locked. Please manually delete the '' @ [CHR 0x27] @
                 ''chroma'' @ [CHR 0x27] @ '' folder and restart.'')"

definition msg_success :: "string \<times> string" where
  "msg_success = (''success'', ''Database cleared successfully on startup'')"

definition msg_failed :: "exn \<Rightarrow> string \<times> string" where
  "msg_failed e = (''error'', ''Failed to clear database on startup: '' @ str e)"

text \<open>
  Lines 30 to 36: the inner \<^verbatim>\<open>try\<close>. A \<^verbatim>\<open>PermissionError\<close> is handled here by appending
  the notice; any other exception leaves the block. The state is the list \<open>messages\<close>
  and the file system.
\<close>

definition remove_directory ::
  "world \<Rightarrow> (string \<times> string) list \<times> filesystem \<Rightarrow> exn option \<times> (string \<times> string) list \<times> filesystem" where
  "remove_directory w st =
     (case st of (messages, fs) \<Rightarrow>
        if os_path_exists fs CHROMA_PATH then
          (case shutil_rmtree w fs CHROMA_PATH of
             (None, fs') \<Rightarrow> (None, messages, fs')
           | (Some (PermissionError m), fs') \<Rightarrow> (None, messages @ [msg_locked], fs')
           | (Some (Exception m), fs') \<Rightarrow> (Some (Exception m), messages, fs'))
        else (None, messages, fs))"

text \<open>
  Lines 28 to 46: the outer \<^verbatim>\<open>try\<close> block. \<open>Inl e\<close>: the block is left by the exception
  \<open>e\<close>; \<open>Inr b\<close>: it reaches \<^verbatim>\<open>return True, messages\<close>.
\<close>

definition try_block ::
  "world \<Rightarrow> (string \<times> string) list \<times> filesystem \<Rightarrow> (exn + bool) \<times> (string \<times> string) list \<times> filesystem" where
  "try_block w st =
     (case remove_directory w st of
        (Some e, st') \<Rightarrow> (Inl e, st')
      | (None, messages, fs) \<Rightarrow>
          (case (if os_path_exists fs marker_file
                 then os_remove (remove_raises w) fs marker_file
                 else (None, fs)) of
             (Some e, fs') \<Rightarrow> (Inl e, messages, fs')
           | (None, fs') \<Rightarrow>
               (Inr True,
                (if \<not> os_path_exists fs' CHROMA_PATH then messages @ [msg_success] else messages),
                fs')))"

text \<open>
  Lines 47 to 53: the handler of \<^verbatim>\<open>except Exception as e\<close>. The second
  \<^verbatim>\<open>os.remove\<close> sits in a \<^verbatim>\<open>try\<close> whose bare \<^verbatim>\<open>except\<close> passes, so what it raises is dropped.
\<close>

definition except_block ::
  "world \<Rightarrow> exn \<Rightarrow> (string \<times> string) list \<times> filesystem \<Rightarrow> (string \<times> string) list \<times> filesystem" where
  "except_block w e st =
     (case st of (messages, fs) \<Rightarrow>
        (messages @ [msg_failed e],
         (if os_path_exists fs marker_file
          then snd (os_remove (remove_again_raises w) fs marker_file)
          else fs)))"

text \<open>
  \<^verbatim>\<open>check_deletion_marker\<close> (app.py, lines 18 to 54). The result is \<open>Inr (flag, messages)\<close>
  when the function returns and \<open>Inl e\<close> when an exception leaves it, together with the
  file system afterwards. (\<^verbatim>\<open>time.sleep(2)\<close> changes nothing that is modelled.)
\<close>

definition check_deletion_marker ::
  "world \<Rightarrow> filesystem \<Rightarrow> (exn + bool \<times> (string \<times> string) list) \<times> filesystem" where
  "check_deletion_marker w fs =
     (if os_path_exists fs marker_file then
        (case try_block w ([], fs) of
           (Inr r, messages, fs') \<Rightarrow> (Inr (r, messages), fs')
         | (Inl e, st') \<Rightarrow>
             (case except_block w e st' of
                (messages, fs') \<Rightarrow> (Inr (False, messages), fs')))
      else (Inr (False, []), fs))"

section \<open>The content fetcher: \<^verbatim>\<open>fetch_content\<close>\<close>

text \<open>
  \<^verbatim>\<open>int(c)\<close> for the one-character string \<^verbatim>\<open>tag.name[1]\<close>: the digit's value, or a
  \<^verbatim>\<open>ValueError\<close>.
\<close>

definition int_of_char :: "char \<Rightarrow> exn + nat" where
  "int_of_char c =
     (if 48 \<le> (of_char c :: nat) \<and> (of_char c :: nat) \<le> 57 then Inr (of_char c - 48)
      else Inl (Exception (''invalid literal for int() with base 10: '' @ [CHR 0x27, c, CHR 0x27])))"

text \<open>
  Lines 49 to 59: the text one element adds. The branches are tried in the source's order;
  an element matching none of them adds nothing.
\<close>

definition render :: "tag \<Rightarrow> exn + string" where
  "render t =
     (if name t \<noteq> [] \<and> hd (name t) = CHR ''h'' then
        (case tl (name t) of
           [] \<Rightarrow> Inl (Exception ''string index out of range'')
         | c # cs \<Rightarrow>
             (case int_of_char c of
                Inl e \<Rightarrow> Inl e
              | Inr level \<Rightarrow>
                  Inr (replicate level (CHR ''#'') @ '' '' @ get_text t @ [CHR 0x0A, CHR 0x0A])))
      else if name t = ''p'' then Inr (get_text t @ [CHR 0x0A, CHR 0x0A])
      else if name t = ''blockquote'' then Inr (''> '' @ get_text t @ [CHR 0x0A, CHR 0x0A])
      else if name t \<in> set [''ul'', ''ol''] then
        Inr (concat (map (\<lambda>item. ''* '' @ item @ [CHR 0x0A]) (li t)) @ [CHR 0x0A])
      else Inr [])"

text \<open>Lines 45 to 59: the loop over the elements, \<open>text\<close> being the string built so far.\<close>

fun extract_text :: "string \<Rightarrow> tag list \<Rightarrow> exn + string" where
  "extract_text text [] = Inr text"
| "extract_text text (t # ts) =
     (case render t of
        Inl e \<Rightarrow> Inl e
      | Inr s \<Rightarrow> extract_text (text @ s) ts)"

text \<open>
  Lines 31 to 59: the content region is the \<^verbatim>\<open>article\<close>, else the \<^verbatim>\<open>main\<close>, else the body.
  A page without a body leaves \<^verbatim>\<open>main_content\<close> \<^verbatim>\<open>None\<close>, and \<^verbatim>\<open>find_all\<close> on it raises.
\<close>

definition page_text :: "page \<Rightarrow> exn + string" where
  "page_text p =
     (case (case article p of
              Some ts \<Rightarrow> Some ts
            | None \<Rightarrow> (case main p of Some ts \<Rightarrow> Some ts | None \<Rightarrow> body p)) of
        None \<Rightarrow>
          Inl (Exception ([CHR 0x27] @ ''NoneType'' @ [CHR 0x27] @ '' object has no attribute '' @
                          [CHR 0x27] @ ''find_all'' @ [CHR 0x27]))
      | Some ts \<Rightarrow> extract_text [] ts)"

text \<open>Lines 21 to 59, the body of the \<^verbatim>\<open>try\<close> up to the test of \<open>text\<close>: the text, or the exception.\<close>

definition attempt :: "fetched \<Rightarrow> exn + string" where
  "attempt r = (case r of Raises e \<Rightarrow> Inl e | Parsed p \<Rightarrow> page_text p)"

text \<open>
  Lines 19 to 68: one iteration of the loop, for \<open>url\<close> with what the request came back
  with. The state is the list \<open>content\<close> and the messages shown.
\<close>

definition fetch_one ::
  "fetched \<Rightarrow> string \<Rightarrow> document list \<times> ui_event list \<Rightarrow> document list \<times> ui_event list" where
  "fetch_one r url st =
     (case st of (content, ui) \<Rightarrow>
        (case attempt r of
           Inl e \<Rightarrow>
             (content,
              ui @ [St_info (''Fetching content from '' @ url @ ''...''),
                    St_error (''Failed to fetch '' @ url @ '': '' @ str e)])
         | Inr text \<Rightarrow>
             if text \<noteq> [] then
               (content @ [Document text [(''source'', url)]],
                ui @ [St_info (''Fetching content from '' @ url @ ''...''),
                      St_success (''Successfully processed '' @ url)])
             else
               (content,
                ui @ [St_info (''Fetching content from '' @ url @ ''...''),
                      St_warning (''No content extracted from '' @ url)])))"

fun fetch_loop ::
  "(nat \<Rightarrow> string \<Rightarrow> fetched) \<Rightarrow> nat \<Rightarrow> string list \<Rightarrow> document list \<times> ui_event list \<Rightarrow>
   document list \<times> ui_event list" where
  "fetch_loop h i [] st = st"
| "fetch_loop h i (url # urls) st = fetch_loop h (Suc i) urls (fetch_one (h i url) url st)"

text \<open>
  \<^verbatim>\<open>fetch_content\<close> (populate\_database.py, lines 11 to 70): the documents returned and the
  messages shown, \<open>ui\<close> being those shown before the call.
\<close>

definition fetch_content :: "world \<Rightarrow> string list \<Rightarrow> ui_event list \<Rightarrow> document list \<times> ui_event list" where
  "fetch_content w urls ui = fetch_loop (http w) 0 urls ([], ui)"

section \<open>Chunking and indexing: \<^verbatim>\<open>split_document\<close> and \<^verbatim>\<open>add_to_chroma\<close>\<close>

text \<open>\<^verbatim>\<open>split_document\<close> (lines 72 to 80) hands the documents to the library's splitter.\<close>

definition split_document :: "world \<Rightarrow> document list \<Rightarrow> document list" where
  "split_document w documents = text_splitter w 800 80 documents"

text \<open>
  \<^verbatim>\<open>add_to_chroma\<close> (lines 82 to 88). The store is the library's; the model records the
  argument of each \<^verbatim>\<open>add_documents\<close> call that returned (\<open>calls\<close>), and that opening the
  store creates its directory when there is none (line 122 of app.py relies on it).
\<close>

definition add_to_chroma ::
  "world \<Rightarrow> filesystem \<times> document list list \<Rightarrow> document list \<Rightarrow>
   exn option \<times> filesystem \<times> document list list" where
  "add_to_chroma w st chunks =
     (case st of (fs, calls) \<Rightarrow>
        (case chroma_raises w of
           Some e \<Rightarrow> (Some e, fs, calls)
         | None \<Rightarrow>
             (case add_documents_raises w of
                Some e \<Rightarrow> (Some e, (if fs CHROMA_PATH = None then fs(CHROMA_PATH \<mapsto> Dir) else fs), calls)
              | None \<Rightarrow>
                  (None, (if fs CHROMA_PATH = None then fs(CHROMA_PATH \<mapsto> Dir) else fs),
                   calls @ [chunks]))))"

section \<open>The script \<^verbatim>\<open>app.py\<close>\<close>

text \<open>
  The state of a run: the file system, \<^verbatim>\<open>st.session_state.processed_urls\<close> (\<open>None\<close> while
  the key is not in the session state), the messages shown, and the arguments of the
  \<^verbatim>\<open>add_documents\<close> calls made.
\<close>

record app_state =
  files :: filesystem
  processed_urls :: "string list option"
  ui :: "ui_event list"
  index_calls :: "document list list"

text \<open>The form: three text fields and the two submit buttons.\<close>

record inputs =
  url1 :: string
  url2 :: string
  url3 :: string
  process_button :: bool
  clear_button :: bool

text \<open>\<^verbatim>\<open>str(n)\<close> for a natural number, used by the f-string of line 103.\<close>

fun str_nat :: "nat \<Rightarrow> string" where
  "str_nat n =
     (if n < 10 then [char_of (48 + n)]
      else str_nat (n div 10) @ [char_of (48 + n mod 10)])"

declare str_nat.simps [simp del]

text \<open>Line 90: the URLs of the form that are not blank.\<close>

definition submitted_urls :: "inputs \<Rightarrow> string list" where
  "submitted_urls i = filter (\<lambda>url. url \<noteq> []) [url1 i, url2 i, url3 i]"

text \<open>
  Lines 89 to 105, the body of \<^verbatim>\<open>if process_button\<close>. The first component is the
  exception that leaves the block, if any: nothing here catches what \<^verbatim>\<open>add_to_chroma\<close>
  raises.
\<close>

definition process_articles :: "world \<Rightarrow> inputs \<Rightarrow> app_state \<Rightarrow> exn option \<times> app_state" where
  "process_articles w i s =
     (let urls = submitted_urls i in
      if urls = [] then
        (None, s\<lparr>ui := ui s @ [St_warning ''Please enter at least one URL.'']\<rparr>)
      else
        (case fetch_content w urls (ui s) of (documents, ui') \<Rightarrow>
           if documents \<noteq> [] then
             (case add_to_chroma w (files s, index_calls s) (split_document w documents) of
                (Some e, fs', calls') \<Rightarrow>
                  (Some e, s\<lparr>files := fs', ui := ui', index_calls := calls'\<rparr>)
              | (None, fs', calls') \<Rightarrow>
                  (None, s\<lparr>files := fs', index_calls := calls', processed_urls := Some urls,
                           ui := ui' @ [St_success (''Processed '' @ str_nat (length documents) @
                                                   '' articles successfully!'')]\<rparr>))
           else
             (None, s\<lparr>ui := ui' @ [St_error ''No content could be retrieved from the provided URLs.'']\<rparr>)))"

text \<open>Lines 107 to 110, the body of \<^verbatim>\<open>if clear_button\<close>.\<close>

definition clear_pressed :: "world \<Rightarrow> app_state \<Rightarrow> app_state" where
  "clear_pressed w s =
     (case clear_database w (files s, ui s) of
        (fs', ui') \<Rightarrow> s\<lparr>files := fs', ui := ui', processed_urls := Some []\<rparr>)"

text \<open>Lines 68 to 74: how a message of \<^verbatim>\<open>check_deletion_marker\<close> is shown.\<close>

definition display :: "string \<times> string \<Rightarrow> ui_event" where
  "display m =
     (case m of (msg_type, msg_text) \<Rightarrow>
        if msg_type = ''success'' then St_success msg_text
        else if msg_type = ''error'' then St_error msg_text
        else St_info msg_text)"

text \<open>
  One run of the script, lines 57 to 110: the marker check first, then the session state,
  the messages of the check, and the two buttons. The question section (lines 112 to 161)
  only reads the session state and the store and is left out. The first component is the
  exception that ends the run, if any.
\<close>

definition run_script :: "world \<Rightarrow> inputs \<Rightarrow> app_state \<Rightarrow> exn option \<times> app_state" where
  "run_script w i s =
     (case check_deletion_marker w (files s) of
        (Inl e, fs') \<Rightarrow> (Some e, s\<lparr>files := fs'\<rparr>)
      | (Inr (db_cleared, messages), fs') \<Rightarrow>
          (let s1 = s\<lparr>files := fs',
                      processed_urls := Some (case processed_urls s of None \<Rightarrow> [] | Some us \<Rightarrow> us),
                      ui := ui s @ map display messages\<rparr>
           in case (if process_button i then process_articles w i s1 else (None, s1)) of
                (Some e, s2) \<Rightarrow> (Some e, s2)
              | (None, s2) \<Rightarrow> (None, if clear_button i then clear_pressed w s2 else s2)))"

text \<open>A process starts with the file system the last one left and an empty session.\<close>

definition process_start :: "filesystem \<Rightarrow> app_state" where
  "process_start fs = \<lparr>files = fs, processed_urls = None, ui = [], index_calls = []\<rparr>"



section \<open>Concrete worlds and inputs\<close>

text \<open>
  A world in which no call raises and every URL serves an article with one heading and
  one paragraph; the splitter stands in for the library's and returns each document as
  one chunk.
\<close>

definition quiet :: world where
  "quiet =
     \<lparr>open_raises = None, write_raises = None, rmtree_raises = None, rmtree_removed = [],
      remove_raises = None, remove_again_raises = None,
      http = (\<lambda>i url. Parsed (Page (Some [Tag ''h1'' ''Title'' [], Tag ''p'' ''Body.'' []]) None None)),
      text_splitter = (\<lambda>size overlap documents. documents),
      chroma_raises = None, add_documents_raises = None\<rparr>"

text \<open>The same world with the index directory locked.\<close>

definition locked :: world where
  "locked = quiet\<lparr>rmtree_raises := Some (PermissionError ''[WinError 32] The process cannot access the file'')\<rparr>"

text \<open>The locked world in which, in addition, the marker cannot be removed.\<close>

definition stuck :: world where
  "stuck = locked\<lparr>remove_raises := Some (PermissionError ''[WinError 5] Access is denied''),
                  remove_again_raises := Some (PermissionError ''[WinError 5] Access is denied'')\<rparr>"

text \<open>The same world, except that the site \<^verbatim>\<open>https://b.example\<close> answers 404.\<close>

definition b_down :: world where
  "b_down =
     quiet\<lparr>http := (\<lambda>i url. if url = ''https://b.example''
                               then Raises (Exception ''404 Client Error: Not Found'')
                               else http quiet i url)\<rparr>"

text \<open>A file system holding an index, and the same with the marker written.\<close>

definition indexed :: filesystem where
  "indexed = [''chroma'' \<mapsto> Dir, ''chroma/chroma.sqlite3'' \<mapsto> File ''index'']"

definition marked :: filesystem where
  "marked = indexed(''delete_chroma.marker'' \<mapsto> File ''delete'')"

definition form_a_b :: inputs where
  "form_a_b = \<lparr>url1 = ''https://a.example'', url2 = ''https://b.example'', url3 = [],
               process_button = True, clear_button = False\<rparr>"

definition form_b :: inputs where
  "form_b = \<lparr>url1 = [], url2 = ''https://b.example'', url3 = [],
             process_button = True, clear_button = False\<rparr>"

text \<open>The form as it is when the page is first loaded: nothing entered, nothing pressed.\<close>

definition form_idle :: inputs where
  "form_idle = \<lparr>url1 = [], url2 = [], url3 = [], process_button = False, clear_button = False\<rparr>"

section \<open>Facts about the paths and the file operations\<close>

lemma marker_file_eq: "marker_file = ''delete_chroma.marker''"
  by (simp add: marker_file_def os_path_join_def os_path_dirname_def CHROMA_PATH_def)

lemma chroma_ne_marker: "CHROMA_PATH \<noteq> marker_file" "\<not> under CHROMA_PATH marker_file"
  by (simp_all add: marker_file_eq CHROMA_PATH_def under_def)

lemma not_under_self: "\<not> under p p"
  by (simp add: under_def)

lemma write_file_ok:
  assumes "fs p \<noteq> Some Dir" "open_raises w = None" "write_raises w = None"
  shows "write_file w fs p text = (None, fs(p \<mapsto> File text))"
  using assms by (simp add: write_file_def split: option.splits node.splits)

lemma os_remove_file:
  assumes "fs p = Some (File c)"
  shows "os_remove r fs p = (r, if r = None then fs(p := None) else fs)"
  using assms by (simp add: os_remove_def split: option.splits)

lemma os_remove_result:
  "os_remove r fs p = (None, fs') \<Longrightarrow> fs' = fs(p := None)"
  "os_remove r fs p = (Some e, fs') \<Longrightarrow> fs' = fs"
  by (auto simp: os_remove_def split: option.splits node.splits)

lemma shutil_rmtree_ok:
  assumes "fs p = Some Dir" "rmtree_raises w = None"
  shows "shutil_rmtree w fs p = (None, (\<lambda>q. if q = p \<or> under p q then None else fs q))"
  using assms by (simp add: shutil_rmtree_def)

lemma shutil_rmtree_raises:
  assumes "fs p = Some Dir" "rmtree_raises w = Some e"
  shows "shutil_rmtree w fs p =
           (Some e, (\<lambda>q. if q \<in> set (rmtree_removed w) \<and> under p q then None else fs q))"
  using assms by (simp add: shutil_rmtree_def)

lemma example_facts:
  "indexed CHROMA_PATH = Some Dir" "indexed marker_file = None"
  "marked CHROMA_PATH = Some Dir" "marked marker_file = Some (File ''delete'')"
  by (simp_all add: indexed_def marked_def CHROMA_PATH_def marker_file_eq)

lemma quiet_facts:
  "open_raises quiet = None" "write_raises quiet = None" "rmtree_raises quiet = None"
  "remove_raises quiet = None" "remove_again_raises quiet = None"
  "chroma_raises quiet = None" "add_documents_raises quiet = None"
  by (simp_all add: quiet_def)

lemma locked_facts:
  "rmtree_raises locked = Some (PermissionError ''[WinError 32] The process cannot access the file'')"
  "remove_raises locked = None" "remove_again_raises locked = None"
  by (simp_all add: locked_def quiet_def)

lemma stuck_facts:
  "rmtree_raises stuck = Some (PermissionError ''[WinError 32] The process cannot access the file'')"
  "remove_raises stuck = Some (PermissionError ''[WinError 5] Access is denied'')"
  "remove_again_raises stuck = Some (PermissionError ''[WinError 5] Access is denied'')"
  by (simp_all add: stuck_def locked_def quiet_def)

lemma form_idle_facts: "\<not> process_button form_idle" "\<not> clear_button form_idle"
  by (simp_all add: form_idle_def)

text \<open>How the three messages of the check are shown (lines 68 to 74).\<close>

lemma display_messages:
  "display msg_success = St_success ''Database cleared successfully on startup''"
  "display msg_locked = St_error (snd msg_locked)"
  "display (msg_failed e) = St_error (snd (msg_failed e))"
  by (simp_all add: display_def msg_success_def msg_locked_def msg_failed_def)

section \<open>The marker check, case by case\<close>

text \<open>No marker: nothing is touched and nothing is reported.\<close>

lemma check_deletion_marker_no_marker:
  assumes "\<not> os_path_exists fs marker_file"
  shows "check_deletion_marker w fs = (Inr (False, []), fs)"
  using assms by (simp add: check_deletion_marker_def)

text \<open>Marker and directory present, nothing raises.\<close>

lemma check_deletion_marker_ok:
  assumes "fs CHROMA_PATH = Some Dir" "fs marker_file = Some (File c)"
    "rmtree_raises w = None" "remove_raises w = None"
  shows "check_deletion_marker w fs =
     (Inr (True, [msg_success]),
      (\<lambda>q. if q = marker_file \<or> q = CHROMA_PATH \<or> under CHROMA_PATH q then None else fs q))"
proof -
  let ?fs1 = "\<lambda>q. if q = CHROMA_PATH \<or> under CHROMA_PATH q then None else fs q"
  have 1: "remove_directory w ([], fs) = (None, [], ?fs1)"
    using assms by (simp add: remove_directory_def os_path_exists_def shutil_rmtree_ok)
  have m: "?fs1 marker_file = Some (File c)"
    using assms chroma_ne_marker by auto
  have 2: "os_remove (remove_raises w) ?fs1 marker_file = (None, ?fs1(marker_file := None))"
    using m assms(4) os_remove_file[of ?fs1 marker_file c None] by simp
  have 3: "try_block w ([], fs) = (Inr True, [msg_success], ?fs1(marker_file := None))"
    unfolding try_block_def 1 using m 2 by (simp add: os_path_exists_def)
  show ?thesis
    using assms(2) by (simp add: check_deletion_marker_def os_path_exists_def 3 fun_eq_iff)
qed

text \<open>Marker present, no directory.\<close>

lemma check_deletion_marker_no_directory:
  assumes "fs CHROMA_PATH = None" "fs marker_file = Some (File c)" "remove_raises w = None"
  shows "check_deletion_marker w fs = (Inr (True, [msg_success]), fs(marker_file := None))"
proof -
  have 1: "remove_directory w ([], fs) = (None, [], fs)"
    using assms by (simp add: remove_directory_def os_path_exists_def)
  have 3: "try_block w ([], fs) = (Inr True, [msg_success], fs(marker_file := None))"
    unfolding try_block_def 1 using assms chroma_ne_marker
    by (simp add: os_path_exists_def os_remove_file)
  show ?thesis
    using assms(2) by (simp add: check_deletion_marker_def os_path_exists_def 3)
qed

text \<open>The directory is locked: the inner handler appends the notice and the block goes on.\<close>

lemma remove_directory_locked:
  assumes "fs CHROMA_PATH = Some Dir" "rmtree_raises w = Some (PermissionError m)"
  shows "remove_directory w (ms, fs) =
     (None, ms @ [msg_locked],
      (\<lambda>q. if q \<in> set (rmtree_removed w) \<and> under CHROMA_PATH q then None else fs q))"
  using assms by (simp add: remove_directory_def os_path_exists_def shutil_rmtree_raises)

lemma check_deletion_marker_locked:
  assumes "fs CHROMA_PATH = Some Dir" "fs marker_file = Some (File c)"
    "rmtree_raises w = Some (PermissionError m)" "remove_raises w = None"
  shows "check_deletion_marker w fs =
     (Inr (True, [msg_locked]),
      (\<lambda>q. if q \<in> set (rmtree_removed w) \<and> under CHROMA_PATH q then None else fs q)
        (marker_file := None))"
proof -
  let ?fs1 = "\<lambda>q. if q \<in> set (rmtree_removed w) \<and> under CHROMA_PATH q then None else fs q"
  have 1: "remove_directory w ([], fs) = (None, [] @ [msg_locked], ?fs1)"
    using assms(1,3) by (rule remove_directory_locked)
  have m1: "?fs1 marker_file = Some (File c)" and c1: "?fs1 CHROMA_PATH = Some Dir"
    using chroma_ne_marker assms by (simp_all add: not_under_self)
  have 3: "try_block w ([], fs) = (Inr True, [msg_locked], ?fs1(marker_file := None))"
    unfolding try_block_def 1 using m1 c1 assms(4) chroma_ne_marker
    by (simp add: os_path_exists_def os_remove_file[of ?fs1 marker_file c])
  show ?thesis
    using assms(2) by (simp add: check_deletion_marker_def os_path_exists_def 3)
qed

text \<open>Whatever the world does, the function returns: both handlers catch what they guard.\<close>

lemma check_deletion_marker_returns:
  "\<exists>flag messages. fst (check_deletion_marker w fs) = Inr (flag, messages)"
proof (cases "try_block w ([], fs)")
  case (fields r messages fs')
  then show ?thesis
    by (cases r) (auto simp: check_deletion_marker_def split: prod.splits)
qed

text \<open>
  When the directory is locked and both removals of the marker raise, the marker stays and
  two messages are returned.
\<close>

lemma check_deletion_marker_marker_stuck:
  assumes "fs CHROMA_PATH = Some Dir" "fs marker_file = Some (File c)"
    "rmtree_raises w = Some (PermissionError m)"
    "remove_raises w = Some e" "remove_again_raises w = Some e'"
  shows "check_deletion_marker w fs =
     (Inr (False, [msg_locked, msg_failed e]),
      (\<lambda>q. if q \<in> set (rmtree_removed w) \<and> under CHROMA_PATH q then None else fs q))"
proof -
  let ?fs1 = "\<lambda>q. if q \<in> set (rmtree_removed w) \<and> under CHROMA_PATH q then None else fs q"
  have 1: "remove_directory w ([], fs) = (None, [] @ [msg_locked], ?fs1)"
    using assms(1,3) by (rule remove_directory_locked)
  have m1: "?fs1 marker_file = Some (File c)"
    using chroma_ne_marker assms by simp
  have 3: "try_block w ([], fs) = (Inl e, [msg_locked], ?fs1)"
    unfolding try_block_def 1 using m1 assms(4)
    by (simp add: os_path_exists_def os_remove_file[of ?fs1 marker_file c])
  have 4: "except_block w e ([msg_locked], ?fs1) = ([msg_locked, msg_failed e], ?fs1)"
    using m1 assms(5)
    by (simp add: except_block_def os_path_exists_def os_remove_file[of ?fs1 marker_file c])
  show ?thesis
    using assms(2) by (simp add: check_deletion_marker_def os_path_exists_def 3 4)
qed

section \<open>The messages of the marker check\<close>

text \<open>
  Claim C9, as stated, asks for exactly one message on every start. With no marker on disk
  the check returns an empty list: the case in which nothing is to be done is silent.
\<close>

theorem startup_no_marker_no_message:
  "fst (check_deletion_marker quiet indexed) = Inr (False, [])"
  by (simp add: check_deletion_marker_def os_path_exists_def example_facts)

text \<open>
  Claim C9, amended. Suppose the marker path is absent or a regular file, the index path is
  absent or a directory, the removal of the marker does not raise, and the removal of the
  directory either succeeds or raises a \<^verbatim>\<open>PermissionError\<close>. Then the check returns whether
  the marker was there, with no message when it was not, and with exactly one message when
  it was: the locked notice when the directory exists and its removal raised, the success
  message otherwise.
\<close>

theorem startup_messages:
  assumes "fs marker_file \<noteq> Some Dir"
      and "\<forall>c. fs CHROMA_PATH \<noteq> Some (File c)"
      and "remove_raises w = None"
      and "rmtree_raises w = None \<or> (\<exists>m. rmtree_raises w = Some (PermissionError m))"
  shows "fst (check_deletion_marker w fs) =
           Inr (os_path_exists fs marker_file,
                if \<not> os_path_exists fs marker_file then []
                else if os_path_exists fs CHROMA_PATH \<and> rmtree_raises w \<noteq> None then [msg_locked]
                else [msg_success])"
proof (cases "fs marker_file")
  case None
  then show ?thesis
    by (simp add: check_deletion_marker_no_marker os_path_exists_def)
next
  case (Some n)
  then obtain c where m: "fs marker_file = Some (File c)"
    using assms(1) by (cases n) simp_all
  show ?thesis
  proof (cases "fs CHROMA_PATH")
    case None
    then show ?thesis
      using m assms(3) by (simp add: check_deletion_marker_no_directory os_path_exists_def)
  next
    case (Some d)
    then have d: "fs CHROMA_PATH = Some Dir"
      using assms(2) by (cases d) simp_all
    from assms(4) show ?thesis
    proof
      assume "rmtree_raises w = None"
      then show ?thesis
        using m d assms(3) by (simp add: check_deletion_marker_ok os_path_exists_def)
    next
      assume "\<exists>m. rmtree_raises w = Some (PermissionError m)"
      then obtain e where "rmtree_raises w = Some (PermissionError e)" ..
      then show ?thesis
        using m d assms(3) by (simp add: check_deletion_marker_locked os_path_exists_def)
    qed
  qed
qed

theorem startup_messages_witness:
  "fst (check_deletion_marker quiet indexed) = Inr (False, []) \<and>
   fst (check_deletion_marker quiet marked) = Inr (True, [msg_success]) \<and>
   fst (check_deletion_marker locked marked) = Inr (True, [msg_locked])"
proof -
  have q: "rmtree_raises quiet = None \<or> (\<exists>m. rmtree_raises quiet = Some (PermissionError m))"
    by (simp add: quiet_facts)
  have l: "rmtree_raises locked = None \<or> (\<exists>m. rmtree_raises locked = Some (PermissionError m))"
    by (simp add: locked_facts)
  have i: "indexed marker_file \<noteq> Some Dir" "\<forall>c. indexed CHROMA_PATH \<noteq> Some (File c)"
    and m: "marked marker_file \<noteq> Some Dir" "\<forall>c. marked CHROMA_PATH \<noteq> Some (File c)"
    by (simp_all add: example_facts)
  show ?thesis
    using startup_messages [OF i quiet_facts(4) q] startup_messages [OF m quiet_facts(4) q]
      startup_messages [OF m locked_facts(2) l]
    by (simp add: os_path_exists_def example_facts quiet_facts locked_facts)
qed

section \<open>Failure isolation in the content fetcher\<close>

lemma fetch_one_fails:
  assumes "attempt r = Inl e"
  shows "fetch_one r url (content, msgs) =
           (content, msgs @ [St_info (''Fetching content from '' @ url @ ''...''),
                             St_error (''Failed to fetch '' @ url @ '': '' @ str e)])"
  using assms by (simp add: fetch_one_def)

lemma fetch_one_content:
  "fst (fetch_one r url (content, msgs)) = content @ fst (fetch_one r url ([], msgs'))"
  by (simp add: fetch_one_def split: sum.splits)

lemma fetch_one_ui:
  "\<exists>ev. snd (fetch_one r url (content, msgs)) =
          msgs @ [St_info (''Fetching content from '' @ url @ ''...''), ev]"
  by (simp add: fetch_one_def split: sum.splits)

text \<open>The loop over a list is the loop over its parts, one after the other.\<close>

lemma fetch_loop_append:
  "fetch_loop h i (xs @ ys) st = fetch_loop h (i + length xs) ys (fetch_loop h i xs st)"
  by (induction xs arbitrary: i st) simp_all

text \<open>The documents collected do not depend on the messages, and add to those already there.\<close>

lemma fetch_loop_content:
  "fst (fetch_loop h i urls (content, msgs)) = content @ fst (fetch_loop h i urls ([], msgs'))"
proof (induction urls arbitrary: i content msgs msgs')
  case Nil
  show ?case by simp
next
  case (Cons url urls)
  obtain c1 m1 where 1: "fetch_one (h i url) url (content, msgs) = (c1, m1)"
    by (cases "fetch_one (h i url) url (content, msgs)")
  obtain c2 m2 where 2: "fetch_one (h i url) url ([], msgs') = (c2, m2)"
    by (cases "fetch_one (h i url) url ([], msgs')")
  have c: "c1 = content @ c2"
    using fetch_one_content[of "h i url" url content msgs msgs'] 1 2 by simp
  have "fst (fetch_loop h (Suc i) urls (c1, m1)) = c1 @ fst (fetch_loop h (Suc i) urls ([], m2))"
    by (rule Cons.IH)
  moreover have "fst (fetch_loop h (Suc i) urls (c2, m2)) = c2 @ fst (fetch_loop h (Suc i) urls ([], m2))"
    by (rule Cons.IH)
  ultimately show ?case
    by (simp add: 1 2 c)
qed

lemma fetch_loop_ui_mono:
  "set msgs \<subseteq> set (snd (fetch_loop h i urls (content, msgs)))"
proof (induction urls arbitrary: i content msgs)
  case Nil
  show ?case by simp
next
  case (Cons url urls)
  obtain c1 m1 where 1: "fetch_one (h i url) url (content, msgs) = (c1, m1)"
    by (cases "fetch_one (h i url) url (content, msgs)")
  have "set msgs \<subseteq> set m1"
    using fetch_one_ui[of "h i url" url content msgs] 1 by auto
  moreover have "set m1 \<subseteq> set (snd (fetch_loop h (Suc i) urls (c1, m1)))"
    by (rule Cons.IH)
  ultimately show ?case
    by (auto simp: 1)
qed

lemma fetch_loop_announces:
  "y \<in> set urls \<Longrightarrow>
   St_info (''Fetching content from '' @ y @ ''...'') \<in> set (snd (fetch_loop h i urls (content, msgs)))"
proof (induction urls arbitrary: i content msgs)
  case Nil
  then show ?case by simp
next
  case (Cons url urls)
  obtain c1 m1 where 1: "fetch_one (h i url) url (content, msgs) = (c1, m1)"
    by (cases "fetch_one (h i url) url (content, msgs)")
  show ?case
  proof (cases "y = url")
    case True
    then have "St_info (''Fetching content from '' @ y @ ''...'') \<in> set m1"
      using fetch_one_ui[of "h i url" url content msgs] 1 by auto
    then show ?thesis
      using fetch_loop_ui_mono[of m1 h "Suc i" urls c1] by (auto simp: 1)
  next
    case False
    then have "y \<in> set urls" using Cons.prems by simp
    then show ?thesis
      using Cons.IH[of "Suc i" c1 m1] by (simp add: 1)
  qed
qed

text \<open>
  Claim C7. Let the URL \<open>u\<close> stand in the list after the URLs \<open>xs\<close> and before \<open>ys\<close>, and
  let its fetch fail: the request, the status check, the parser or the extraction raises
  \<open>e\<close>. Then \<^verbatim>\<open>fetch_content\<close> goes on with \<open>ys\<close> from the documents that \<open>xs\<close> alone
  gives, having shown the error for \<open>u\<close>; the documents returned are those of \<open>xs\<close>
  followed by those of \<open>ys\<close>, none for \<open>u\<close>; the failure of \<open>u\<close> is reported; and every
  URL of \<open>ys\<close> is still fetched.
\<close>

theorem failed_url_is_isolated:
  assumes fails: "attempt (http w (length xs) u) = Inl e"
  shows "fetch_content w (xs @ u # ys) msgs =
           fetch_loop (http w) (Suc (length xs)) ys
             (fst (fetch_content w xs msgs),
              snd (fetch_content w xs msgs) @
                [St_info (''Fetching content from '' @ u @ ''...''),
                 St_error (''Failed to fetch '' @ u @ '': '' @ str e)]) \<and>
         fst (fetch_content w (xs @ u # ys) msgs) =
           fst (fetch_content w xs msgs) @ fst (fetch_loop (http w) (Suc (length xs)) ys ([], [])) \<and>
         St_error (''Failed to fetch '' @ u @ '': '' @ str e) \<in> set (snd (fetch_content w (xs @ u # ys) msgs)) \<and>
         (\<forall>y \<in> set ys. St_info (''Fetching content from '' @ y @ ''...'')
                          \<in> set (snd (fetch_content w (xs @ u # ys) msgs)))"
proof -
  obtain c m where before: "fetch_content w xs msgs = (c, m)"
    by (cases "fetch_content w xs msgs")
  let ?m' = "m @ [St_info (''Fetching content from '' @ u @ ''...''),
                  St_error (''Failed to fetch '' @ u @ '': '' @ str e)]"
  have step: "fetch_content w (xs @ u # ys) msgs = fetch_loop (http w) (Suc (length xs)) ys (c, ?m')"
    using before fails by (simp add: fetch_content_def fetch_loop_append fetch_one_fails)
  have docs: "fst (fetch_loop (http w) (Suc (length xs)) ys (c, ?m')) =
                c @ fst (fetch_loop (http w) (Suc (length xs)) ys ([], []))"
    by (rule fetch_loop_content)
  have err: "St_error (''Failed to fetch '' @ u @ '': '' @ str e)
               \<in> set (snd (fetch_loop (http w) (Suc (length xs)) ys (c, ?m')))"
    using fetch_loop_ui_mono[of ?m' "http w" "Suc (length xs)" ys c] by auto
  show ?thesis
    unfolding step before using docs err fetch_loop_announces by simp
qed


theorem failed_url_is_isolated_witness:
  "attempt (http b_down (length [''https://a.example'']) ''https://b.example'') =
     Inl (Exception ''404 Client Error: Not Found'') \<and>
   fst (fetch_content b_down [''https://a.example'', ''https://b.example'', ''https://c.example''] []) =
     [Document (''# Title'' @ [CHR 0x0A, CHR 0x0A] @ ''Body.'' @ [CHR 0x0A, CHR 0x0A]) [(''source'', ''https://a.example'')],
      Document (''# Title'' @ [CHR 0x0A, CHR 0x0A] @ ''Body.'' @ [CHR 0x0A, CHR 0x0A]) [(''source'', ''https://c.example'')]] \<and>
   St_error ''Failed to fetch https://b.example: 404 Client Error: Not Found''
     \<in> set (snd (fetch_content b_down [''https://a.example'', ''https://b.example'', ''https://c.example''] []))"
proof -
  have h: "attempt (http b_down (length [''https://a.example'']) ''https://b.example'') =
             Inl (Exception ''404 Client Error: Not Found'')"
    by (simp add: attempt_def b_down_def)
  have a: "fst (fetch_content b_down [''https://a.example''] []) =
     [Document (''# Title'' @ [CHR 0x0A, CHR 0x0A] @ ''Body.'' @ [CHR 0x0A, CHR 0x0A]) [(''source'', ''https://a.example'')]]"
    by (simp add: fetch_content_def fetch_one_def attempt_def b_down_def quiet_def page_text_def
        render_def int_of_char_def)
  have c: "fst (fetch_loop (http b_down) (Suc (length [''https://a.example''])) [''https://c.example''] ([], [])) =
     [Document (''# Title'' @ [CHR 0x0A, CHR 0x0A] @ ''Body.'' @ [CHR 0x0A, CHR 0x0A]) [(''source'', ''https://c.example'')]]"
    by (simp add: fetch_one_def attempt_def b_down_def quiet_def page_text_def
        render_def int_of_char_def)
  note t = failed_url_is_isolated [OF h, of "[''https://c.example'']" "[]"]
  have d: "fst (fetch_content b_down [''https://a.example'', ''https://b.example'', ''https://c.example''] []) =
           fst (fetch_content b_down [''https://a.example''] []) @
           fst (fetch_loop (http b_down) (Suc (length [''https://a.example''])) [''https://c.example''] ([], []))"
    using t [THEN conjunct2, THEN conjunct1] by simp
  have e: "St_error ''Failed to fetch https://b.example: 404 Client Error: Not Found''
     \<in> set (snd (fetch_content b_down [''https://a.example'', ''https://b.example'', ''https://c.example''] []))"
    using t [THEN conjunct2, THEN conjunct2, THEN conjunct1] by simp
  show ?thesis
    unfolding d a c using h e by simp
qed

section \<open>The script around the marker check\<close>

text \<open>Once the check has returned, the script goes on with the state the check left.\<close>

lemma run_script_after_check:
  assumes "check_deletion_marker w (files s) = (Inr (flag, messages), fs')"
  shows "run_script w i s =
     (case (if process_button i
            then process_articles w i
                   (s\<lparr>files := fs',
                      processed_urls := Some (case processed_urls s of None \<Rightarrow> [] | Some us \<Rightarrow> us),
                      ui := ui s @ map display messages\<rparr>)
            else (None, s\<lparr>files := fs',
                      processed_urls := Some (case processed_urls s of None \<Rightarrow> [] | Some us \<Rightarrow> us),
                      ui := ui s @ map display messages\<rparr>)) of
        (Some e, s2) \<Rightarrow> (Some e, s2)
      | (None, s2) \<Rightarrow> (None, if clear_button i then clear_pressed w s2 else s2))"
  by (simp add: run_script_def assms Let_def)

text \<open>The script runs the check on the file system it finds, before anything else.\<close>

lemma run_script_starts_with_check:
  assumes "\<not> process_button i" "\<not> clear_button i"
  shows "files (snd (run_script w i s)) = snd (check_deletion_marker w (files s))"
proof -
  obtain flag messages where "fst (check_deletion_marker w (files s)) = Inr (flag, messages)"
    using check_deletion_marker_returns by blast
  then obtain fs' where k: "check_deletion_marker w (files s) = (Inr (flag, messages), fs')"
    by (cases "check_deletion_marker w (files s)") simp
  show ?thesis
    using assms by (simp add: run_script_def k Let_def)
qed

text \<open>Messages shown stay shown: the form actions only add to them.\<close>

lemma fetch_content_ui_mono: "set msgs \<subseteq> set (snd (fetch_content w urls msgs))"
  by (simp add: fetch_content_def fetch_loop_ui_mono)

lemma process_articles_ui_mono: "set (ui s) \<subseteq> set (ui (snd (process_articles w i s)))"
proof -
  obtain ds m where f: "fetch_content w (submitted_urls i) (ui s) = (ds, m)"
    by (cases "fetch_content w (submitted_urls i) (ui s)")
  then have "set (ui s) \<subseteq> set m"
    using fetch_content_ui_mono[of "ui s" w "submitted_urls i"] by simp
  then show ?thesis
    by (auto simp: process_articles_def Let_def f add_to_chroma_def split: option.splits)
qed

lemma clear_pressed_ui_mono: "set (ui s) \<subseteq> set (ui (clear_pressed w s))"
  by (auto simp: clear_pressed_def clear_database_def split: prod.splits option.splits)

text \<open>Every message the check returns is shown in that run.\<close>

lemma run_script_shows_messages:
  assumes "check_deletion_marker w (files s) = (Inr (flag, messages), fs')"
  shows "display ` set messages \<subseteq> set (ui (snd (run_script w i s)))"
proof -
  let ?s1 = "s\<lparr>files := fs',
                processed_urls := Some (case processed_urls s of None \<Rightarrow> [] | Some us \<Rightarrow> us),
                ui := ui s @ map display messages\<rparr>"
  have 1: "display ` set messages \<subseteq> set (ui ?s1)" by auto
  obtain x s2 where p: "(if process_button i then process_articles w i ?s1 else (None, ?s1)) = (x, s2)"
    by (cases "if process_button i then process_articles w i ?s1 else (None, ?s1)")
  have 2: "set (ui ?s1) \<subseteq> set (ui s2)"
    using p process_articles_ui_mono[of ?s1 w i] by (cases "process_button i") auto
  have 3: "set (ui s2) \<subseteq> set (ui (snd (run_script w i s)))"
    unfolding run_script_after_check[OF assms] p
    using clear_pressed_ui_mono[of s2 w] by (cases x) auto
  show ?thesis using 1 2 3 by blast
qed

section \<open>Deferred deletion\<close>

text \<open>
  Claim C1. With the index directory present and the marker path not a directory,
  \<^verbatim>\<open>clear_database\<close>, when opening and writing the marker succeed, leaves a marker file
  with the content \<^verbatim>\<open>delete\<close> and changes no other path, so the index directory is not
  deleted in place. When the next process starts on that file system and the removal of
  the directory and of the marker succeed, the marker check returns \<^verbatim>\<open>True\<close> with the
  single success message, and afterwards neither the index directory, nor anything inside
  it, nor the marker exists; every other path is as before. The script runs the check
  first: whatever the form holds, the form actions (which alone open the index) start from
  the state in which the directory and the marker are gone already, the session is empty
  and the success message is shown; and a start with nothing pressed ends in that state.
\<close>

theorem deferred_deletion_happy_path:
  assumes active: "fs CHROMA_PATH = Some Dir"
      and marker: "fs marker_file \<noteq> Some Dir"
      and wr: "open_raises w1 = None" "write_raises w1 = None"
      and rm: "rmtree_raises w2 = None" "remove_raises w2 = None"
  shows "(let fs1 = fst (clear_database w1 (fs, msgs));
              fs2 = snd (check_deletion_marker w2 fs1);
              s1 = \<lparr>files = fs2, processed_urls = Some [],
                    ui = [St_success ''Database cleared successfully on startup''],
                    index_calls = []\<rparr>
          in fs1 marker_file = Some (File ''delete'') \<and>
             (\<forall>p. p \<noteq> marker_file \<longrightarrow> fs1 p = fs p) \<and>
             fst (check_deletion_marker w2 fs1) = Inr (True, [msg_success]) \<and>
             \<not> os_path_exists fs2 CHROMA_PATH \<and>
             \<not> os_path_exists fs2 marker_file \<and>
             (\<forall>p. under CHROMA_PATH p \<longrightarrow> \<not> os_path_exists fs2 p) \<and>
             (\<forall>p. p \<noteq> marker_file \<and> p \<noteq> CHROMA_PATH \<and> \<not> under CHROMA_PATH p \<longrightarrow> fs2 p = fs p) \<and>
             run_script w2 i (process_start fs1) =
               (case (if process_button i then process_articles w2 i s1 else (None, s1)) of
                  (Some e, s2) \<Rightarrow> (Some e, s2)
                | (None, s2) \<Rightarrow> (None, if clear_button i then clear_pressed w2 s2 else s2)) \<and>
             (\<not> process_button i \<and> \<not> clear_button i \<longrightarrow>
                run_script w2 i (process_start fs1) = (None, s1)))"
proof -
  let ?fs1 = "fs(marker_file \<mapsto> File ''delete'')"
  let ?fs2 = "\<lambda>q. if q = marker_file \<or> q = CHROMA_PATH \<or> under CHROMA_PATH q then None else ?fs1 q"
  let ?s1 = "\<lparr>files = ?fs2, processed_urls = Some [],
              ui = [St_success ''Database cleared successfully on startup''],
              index_calls = []\<rparr>"
  have c: "fst (clear_database w1 (fs, msgs)) = ?fs1"
    using marker wr by (simp add: clear_database_def write_file_ok)
  have a: "?fs1 CHROMA_PATH = Some Dir"
    using active chroma_ne_marker by simp
  have k: "check_deletion_marker w2 ?fs1 = (Inr (True, [msg_success]), ?fs2)"
    using a rm by (intro check_deletion_marker_ok[where c = "''delete''"]) simp_all
  have k': "check_deletion_marker w2 (files (process_start ?fs1)) = (Inr (True, [msg_success]), ?fs2)"
    using k by (simp add: process_start_def)
  have r: "run_script w2 i (process_start ?fs1) =
             (case (if process_button i then process_articles w2 i ?s1 else (None, ?s1)) of
                (Some e, s2) \<Rightarrow> (Some e, s2)
              | (None, s2) \<Rightarrow> (None, if clear_button i then clear_pressed w2 s2 else s2))"
    unfolding run_script_after_check[OF k']
    by (simp add: process_start_def display_messages)
  have idle: "\<not> process_button i \<and> \<not> clear_button i \<longrightarrow>
                run_script w2 i (process_start ?fs1) = (None, ?s1)"
    unfolding r by simp
  have rest: "?fs1 marker_file = Some (File ''delete'') \<and>
             (\<forall>p. p \<noteq> marker_file \<longrightarrow> ?fs1 p = fs p) \<and>
             \<not> os_path_exists ?fs2 CHROMA_PATH \<and>
             \<not> os_path_exists ?fs2 marker_file \<and>
             (\<forall>p. under CHROMA_PATH p \<longrightarrow> \<not> os_path_exists ?fs2 p) \<and>
             (\<forall>p. p \<noteq> marker_file \<and> p \<noteq> CHROMA_PATH \<and> \<not> under CHROMA_PATH p \<longrightarrow> ?fs2 p = fs p)"
    by (simp add: os_path_exists_def)
  show ?thesis
    unfolding c Let_def k fst_conv snd_conv using rest r idle by blast
qed

theorem deferred_deletion_happy_path_witness:
  "indexed CHROMA_PATH = Some Dir \<and> indexed marker_file \<noteq> Some Dir \<and>
   open_raises quiet = None \<and> write_raises quiet = None \<and>
   rmtree_raises quiet = None \<and> remove_raises quiet = None \<and>
   \<not> process_button form_idle \<and> \<not> clear_button form_idle \<and>
   fst (clear_database quiet (indexed, [])) marker_file = Some (File ''delete'') \<and>
   fst (clear_database quiet (indexed, [])) CHROMA_PATH = Some Dir \<and>
   fst (run_script quiet form_idle (process_start (fst (clear_database quiet (indexed, []))))) = None \<and>
   \<not> os_path_exists (files (snd (run_script quiet form_idle
         (process_start (fst (clear_database quiet (indexed, []))))))) CHROMA_PATH \<and>
   \<not> os_path_exists (files (snd (run_script quiet form_idle
         (process_start (fst (clear_database quiet (indexed, []))))))) marker_file \<and>
   ui (snd (run_script quiet form_idle (process_start (fst (clear_database quiet (indexed, [])))))) =
     [St_success ''Database cleared successfully on startup''] \<and>
   index_calls (snd (run_script quiet form_idle (process_start (fst (clear_database quiet (indexed, [])))))) = []"
proof -
  have h: "indexed CHROMA_PATH = Some Dir" "indexed marker_file \<noteq> Some Dir"
    by (simp_all add: example_facts)
  note t = deferred_deletion_happy_path [OF h quiet_facts(1) quiet_facts(2) quiet_facts(3) quiet_facts(4),
      of "[]" form_idle, unfolded Let_def]
  have 1: "fst (clear_database quiet (indexed, [])) marker_file = Some (File ''delete'')"
    using t by blast
  have 2: "fst (clear_database quiet (indexed, [])) CHROMA_PATH = Some Dir"
    using t h chroma_ne_marker by metis
  have 3: "\<not> os_path_exists (snd (check_deletion_marker quiet (fst (clear_database quiet (indexed, []))))) CHROMA_PATH"
    "\<not> os_path_exists (snd (check_deletion_marker quiet (fst (clear_database quiet (indexed, []))))) marker_file"
    using t by blast+
  have 4: "run_script quiet form_idle (process_start (fst (clear_database quiet (indexed, [])))) =
     (None, \<lparr>files = snd (check_deletion_marker quiet (fst (clear_database quiet (indexed, [])))),
             processed_urls = Some [],
             ui = [St_success ''Database cleared successfully on startup''],
             index_calls = []\<rparr>)"
    using t form_idle_facts by blast
  show ?thesis
    unfolding 4 using h quiet_facts form_idle_facts 1 2 3 by simp
qed

text \<open>What the check does and returns when the directory is locked.\<close>

lemma locked_check:
  assumes marker: "os_path_exists fs marker_file"
      and active: "fs CHROMA_PATH = Some Dir"
      and locked: "rmtree_raises w = Some (PermissionError m)"
  shows "\<exists>flag messages.
           fst (check_deletion_marker w fs) = Inr (flag, messages) \<and>
           msg_locked \<in> set messages \<and>
           os_path_exists (snd (check_deletion_marker w fs)) CHROMA_PATH \<and>
           ((\<exists>c. fs marker_file = Some (File c)) \<and> remove_raises w = None \<longrightarrow>
              flag \<and> messages = [msg_locked] \<and>
              \<not> os_path_exists (snd (check_deletion_marker w fs)) marker_file) \<and>
           ((\<exists>c. fs marker_file = Some (File c)) \<and> remove_again_raises w = None \<longrightarrow>
              \<not> os_path_exists (snd (check_deletion_marker w fs)) marker_file)"
proof -
  let ?fs1 = "\<lambda>q. if q \<in> set (rmtree_removed w) \<and> under CHROMA_PATH q then None else fs q"
  have 1: "remove_directory w ([], fs) = (None, [] @ [msg_locked], ?fs1)"
    using active locked by (rule remove_directory_locked)
  have m1: "?fs1 marker_file = fs marker_file" and c1: "?fs1 CHROMA_PATH = Some Dir"
    using chroma_ne_marker active by (simp_all add: not_under_self)
  obtain r fs2 where 2: "os_remove (remove_raises w) ?fs1 marker_file = (r, fs2)"
    by (cases "os_remove (remove_raises w) ?fs1 marker_file")
  show ?thesis
  proof (cases r)
    case None
    then have fs2: "fs2 = ?fs1(marker_file := None)"
      using 2 os_remove_result(1) by blast
    have t: "try_block w ([], fs) = (Inr True, [msg_locked], fs2)"
      unfolding try_block_def 1 using marker m1 2 None c1 chroma_ne_marker
      by (simp add: os_path_exists_def fs2)
    have "check_deletion_marker w fs = (Inr (True, [msg_locked]), fs2)"
      using marker by (simp add: check_deletion_marker_def t)
    then show ?thesis
      using c1 chroma_ne_marker by (auto simp: os_path_exists_def fs2)
  next
    case (Some e)
    then have fs2: "fs2 = ?fs1"
      using 2 os_remove_result(2) by blast
    have t: "try_block w ([], fs) = (Inl e, [msg_locked], ?fs1)"
      unfolding try_block_def 1 using marker m1 2 Some
      by (simp add: os_path_exists_def fs2)
    have ne: "\<And>c. fs marker_file = Some (File c) \<Longrightarrow> remove_raises w \<noteq> None"
      using 2 Some m1 by (auto simp: os_remove_file)
    show ?thesis
      using marker c1 chroma_ne_marker ne m1
      by (auto simp: check_deletion_marker_def t except_block_def os_path_exists_def os_remove_def
          split: option.splits node.splits)
  qed
qed

text \<open>
  Claim C2, as stated, has the marker removed whenever the removal of the directory fails
  with a permission error. With the directory locked and both removals of the marker
  raising, the check returns \<^verbatim>\<open>False\<close> with two messages and the marker is still on disk.
\<close>

theorem locked_marker_survives:
  "os_path_exists marked marker_file \<and> marked CHROMA_PATH = Some Dir \<and>
   rmtree_raises stuck = Some (PermissionError ''[WinError 32] The process cannot access the file'') \<and>
   fst (check_deletion_marker stuck marked) =
     Inr (False, [msg_locked, msg_failed (PermissionError ''[WinError 5] Access is denied'')]) \<and>
   os_path_exists (snd (check_deletion_marker stuck marked)) marker_file"
proof -
  have k: "check_deletion_marker stuck marked =
     (Inr (False, [msg_locked, msg_failed (PermissionError ''[WinError 5] Access is denied'')]),
      (\<lambda>q. if q \<in> set (rmtree_removed stuck) \<and> under CHROMA_PATH q then None else marked q))"
    by (rule check_deletion_marker_marker_stuck [OF example_facts(3) example_facts(4) stuck_facts])
  show ?thesis
    unfolding k using chroma_ne_marker
    by (simp add: os_path_exists_def example_facts stuck_facts)
qed

text \<open>
  Claim C2, amended. With the marker and the index directory present, if \<^verbatim>\<open>shutil.rmtree\<close>
  raises a \<^verbatim>\<open>PermissionError\<close>, the check returns (no exception leaves it), the notice
  telling the operator to delete the folder by hand and restart is among its messages, and
  the directory is still there. The marker is gone afterwards if it is a regular file and
  one of the two removals of it, in the \<^verbatim>\<open>try\<close> block or in the handler, does not raise;
  when the first does not raise, the check returns \<^verbatim>\<open>True\<close> with that notice alone. In
  every run of the script that starts on this file system, whatever the form holds, the
  notice is shown to the user as an error.
\<close>

theorem locked_deletion_path:
  assumes marker: "os_path_exists fs marker_file"
      and active: "fs CHROMA_PATH = Some Dir"
      and locked: "rmtree_raises w = Some (PermissionError m)"
  shows "\<exists>flag messages.
           fst (check_deletion_marker w fs) = Inr (flag, messages) \<and>
           msg_locked \<in> set messages \<and>
           os_path_exists (snd (check_deletion_marker w fs)) CHROMA_PATH \<and>
           ((\<exists>c. fs marker_file = Some (File c)) \<and> remove_raises w = None \<longrightarrow>
              flag \<and> messages = [msg_locked] \<and>
              \<not> os_path_exists (snd (check_deletion_marker w fs)) marker_file) \<and>
           ((\<exists>c. fs marker_file = Some (File c)) \<and> remove_again_raises w = None \<longrightarrow>
              \<not> os_path_exists (snd (check_deletion_marker w fs)) marker_file) \<and>
           (\<forall>i s. files s = fs \<longrightarrow>
              St_error (snd msg_locked) \<in> set (ui (snd (run_script w i s))))"
proof -
  obtain flag messages where
    k: "fst (check_deletion_marker w fs) = Inr (flag, messages)" and
    rest: "msg_locked \<in> set messages \<and>
           os_path_exists (snd (check_deletion_marker w fs)) CHROMA_PATH \<and>
           ((\<exists>c. fs marker_file = Some (File c)) \<and> remove_raises w = None \<longrightarrow>
              flag \<and> messages = [msg_locked] \<and>
              \<not> os_path_exists (snd (check_deletion_marker w fs)) marker_file) \<and>
           ((\<exists>c. fs marker_file = Some (File c)) \<and> remove_again_raises w = None \<longrightarrow>
              \<not> os_path_exists (snd (check_deletion_marker w fs)) marker_file)"
    using locked_check [OF marker active locked] by blast
  have shown: "St_error (snd msg_locked) \<in> set (ui (snd (run_script w i s)))" if "files s = fs" for i s
  proof -
    have "check_deletion_marker w (files s) = (Inr (flag, messages), snd (check_deletion_marker w fs))"
      using k that by (simp add: prod_eq_iff)
    then have "display ` set messages \<subseteq> set (ui (snd (run_script w i s)))"
      by (rule run_script_shows_messages)
    moreover have "display msg_locked \<in> display ` set messages"
      using rest by blast
    ultimately show ?thesis
      by (auto simp: display_messages)
  qed
  show ?thesis
    using k rest shown by blast
qed

theorem locked_deletion_path_witness:
  "os_path_exists marked marker_file \<and> marked CHROMA_PATH = Some Dir \<and>
   rmtree_raises locked = Some (PermissionError ''[WinError 32] The process cannot access the file'') \<and>
   fst (check_deletion_marker locked marked) = Inr (True, [msg_locked]) \<and>
   os_path_exists (snd (check_deletion_marker locked marked)) CHROMA_PATH \<and>
   \<not> os_path_exists (snd (check_deletion_marker locked marked)) marker_file \<and>
   St_error (snd msg_locked) \<in> set (ui (snd (run_script locked form_idle (process_start marked))))"
proof -
  have h: "os_path_exists marked marker_file" "marked CHROMA_PATH = Some Dir"
    by (simp_all add: example_facts os_path_exists_def)
  have f: "files (process_start marked) = marked"
    by (simp add: process_start_def)
  show ?thesis
    using locked_deletion_path [OF h locked_facts(1)] h locked_facts example_facts f
    by auto
qed

section \<open>The form actions\<close>










text \<open>
  Claim C10. If at least one URL was submitted and \<^verbatim>\<open>fetch_content\<close> returns no document,
  the Process action shows the messages of the fetches and then the one error message,
  and nothing else changes: no \<^verbatim>\<open>add_documents\<close> call is made, \<^verbatim>\<open>processed_urls\<close> and the
  file system are as before, and no exception leaves the action. Neither the splitter nor
  the store is consulted: the outcome is the same whatever they would do.
\<close>

theorem no_documents_no_indexing:
  assumes "submitted_urls i \<noteq> []"
      and "fst (fetch_content w (submitted_urls i) (ui s)) = []"
  shows "process_articles w i s =
           (None, s\<lparr>ui := snd (fetch_content w (submitted_urls i) (ui s)) @
                          [St_error ''No content could be retrieved from the provided URLs.'']\<rparr>) \<and>
         index_calls (snd (process_articles w i s)) = index_calls s \<and>
         processed_urls (snd (process_articles w i s)) = processed_urls s \<and>
         files (snd (process_articles w i s)) = files s \<and>
         (\<forall>splitter c a.
            process_articles (w\<lparr>text_splitter := splitter, chroma_raises := c, add_documents_raises := a\<rparr>) i s =
            process_articles w i s)"
proof -
  obtain ds m where f: "fetch_content w (submitted_urls i) (ui s) = (ds, m)"
    by (cases "fetch_content w (submitted_urls i) (ui s)")
  with assms(2) have ds: "ds = []" by simp
  have same: "\<And>splitter c a. fetch_content (w\<lparr>text_splitter := splitter, chroma_raises := c, add_documents_raises := a\<rparr>)
                 (submitted_urls i) (ui s) = (ds, m)"
    using f by (simp add: fetch_content_def)
  have p: "process_articles w i s =
           (None, s\<lparr>ui := m @ [St_error ''No content could be retrieved from the provided URLs.'']\<rparr>)"
    using assms(1) by (simp add: process_articles_def Let_def f ds)
  have q: "\<And>splitter c a. process_articles (w\<lparr>text_splitter := splitter, chroma_raises := c, add_documents_raises := a\<rparr>) i s =
           (None, s\<lparr>ui := m @ [St_error ''No content could be retrieved from the provided URLs.'']\<rparr>)"
    using assms(1) by (simp add: process_articles_def Let_def same ds)
  show ?thesis
    by (simp add: p q f)
qed

section \<open>A run with one site down\<close>

lemma b_down_facts:
  "chroma_raises b_down = None" "add_documents_raises b_down = None"
  "http b_down i ''https://b.example'' = Raises (Exception ''404 Client Error: Not Found'')"
  "http b_down i ''https://a.example'' =
     Parsed (Page (Some [Tag ''h1'' ''Title'' [], Tag ''p'' ''Body.'' []]) None None)"
  "text_splitter b_down n k documents = documents"
  by (simp_all add: b_down_def quiet_def)


lemma fetch_b:
  "fetch_content b_down [''https://b.example''] msgs =
     ([], msgs @ [St_info ''Fetching content from https://b.example...'',
                  St_error ''Failed to fetch https://b.example: 404 Client Error: Not Found''])"
  by (simp add: fetch_content_def fetch_one_def attempt_def b_down_facts)

lemma form_facts:
  "submitted_urls form_a_b = [''https://a.example'', ''https://b.example'']"
  "submitted_urls form_b = [''https://b.example'']"
  "process_button form_a_b" "\<not> clear_button form_a_b"
  "process_button form_b" "\<not> clear_button form_b"
  by (simp_all add: submitted_urls_def form_a_b_def form_b_def)



theorem no_documents_no_indexing_witness:
  "submitted_urls form_b \<noteq> [] \<and>
   fst (fetch_content b_down (submitted_urls form_b) (ui (process_start indexed))) = [] \<and>
   process_articles b_down form_b (process_start indexed) =
     (None, (process_start indexed)
        \<lparr>ui := [St_info ''Fetching content from https://b.example...'',
                St_error ''Failed to fetch https://b.example: 404 Client Error: Not Found'',
                St_error ''No content could be retrieved from the provided URLs.'']\<rparr>) \<and>
   index_calls (snd (process_articles b_down form_b (process_start indexed))) = []"
proof -
  have h: "submitted_urls form_b \<noteq> []"
    "fst (fetch_content b_down (submitted_urls form_b) (ui (process_start indexed))) = []"
    by (simp_all add: form_facts fetch_b)
  note t = no_documents_no_indexing [OF h]
  have p: "process_articles b_down form_b (process_start indexed) =
     (None, (process_start indexed)
        \<lparr>ui := [St_info ''Fetching content from https://b.example...'',
                St_error ''Failed to fetch https://b.example: 404 Client Error: Not Found'',
                St_error ''No content could be retrieved from the provided URLs.'']\<rparr>)"
    using t [THEN conjunct1] by (simp add: form_facts fetch_b process_start_def)
  have c: "index_calls (snd (process_articles b_down form_b (process_start indexed))) = []"
    using t [THEN conjunct2, THEN conjunct1] by (simp add: process_start_def)
  show ?thesis
    using h p c by simp
qed

section \<open>The chunks handed to the store\<close>

text \<open>\<^verbatim>\<open>add_to_chroma\<close> hands the chunks to the store as it received them.\<close>

lemma add_to_chroma_hands_over_chunks:
  assumes "add_to_chroma w (fs, calls) chunks = (None, fs', calls')"
  shows "calls' = calls @ [chunks]"
  using assms by (simp add: add_to_chroma_def split: option.splits)

end
